theory Spec2Isabelle
  imports Complex_Main "HOL-Library.Sublist"
begin

section \<open>Client-side helpers of the upload page (static/js/main.js)\<close>

subsection \<open>Numbers\<close>

text \<open>
  A JavaScript Number is an IEEE binary64 value. The model computes with real numbers.
  For a byte count below \<open>2 ^ 46\<close> the products, quotients by a power of 1024 and the
  rounding of \<^verbatim>\<open>formatFileSize\<close> are exact in binary64 as well (every intermediate value
  is a dyadic rational with fewer than 53 significant bits); \<^verbatim>\<open>Math.log\<close> is taken as
  the real logarithm, and the last division by 100 and the conversion to a string as
  the exact decimal, which is what the shortest round-trip digits of the nearest binary64
  value spell for a number with few digits. So \<open>NaN\<close>, infinities, exponent notation
  and negative zero are outside the model.
\<close>

definition Math_log :: "real \<Rightarrow> real" where
  "Math_log x = ln x"

definition Math_floor :: "real \<Rightarrow> int" where
  "Math_floor x = \<lfloor>x\<rfloor>"

definition Math_pow :: "real \<Rightarrow> int \<Rightarrow> real" where
  "Math_pow x n = x powi n"

text \<open>\<^verbatim>\<open>Math.round\<close> rounds to the nearest integer, a tie towards \<open>+\<infinity>\<close>.\<close>

definition Math_round :: "real \<Rightarrow> int" where
  "Math_round x = \<lfloor>x + 1 / 2\<rfloor>"

definition digit :: "nat \<Rightarrow> char" where
  "digit d = ''0123456789'' ! d"

fun decimal :: "nat \<Rightarrow> string" where
  "decimal n = (if n < 10 then [digit n] else decimal (n div 10) @ [digit (n mod 10)])"

declare decimal.simps [simp del]

text \<open>
  The digits after the point of \<open>x\<close> with \<open>0 \<le> x < 1\<close>, until nothing is left; the first
  argument bounds their number.
\<close>

fun fraction_digits :: "nat \<Rightarrow> real \<Rightarrow> string" where
  "fraction_digits 0 x = []"
| "fraction_digits (Suc k) x =
     (if x = 0 then [] else digit (nat \<lfloor>x * 10\<rfloor>) # fraction_digits k (frac (x * 10)))"

text \<open>
  The string of a Number, as string concatenation converts it: a sign, the digits of the
  integer part and, when there is a fraction, a point and its digits.
\<close>

definition Number_toString :: "real \<Rightarrow> string" where
  "Number_toString x =
     (if x < 0 then ''-'' else []) @ decimal (nat \<lfloor>\<bar>x\<bar>\<rfloor>) @
     (if frac \<bar>x\<bar> = 0 then [] else ''.'' @ fraction_digits 20 (frac \<bar>x\<bar>))"

subsection \<open>formatFileSize\<close>

definition sizes :: "string list" where
  "sizes = [''Bytes'', ''KB'', ''MB'', ''GB'']"

text \<open>
  \<^verbatim>\<open>sizes[i]\<close>: reading an array outside its indices gives \<^verbatim>\<open>undefined\<close>, which
  string concatenation spells out.
\<close>

definition sizes_at :: "int \<Rightarrow> string" where
  "sizes_at i = (if 0 \<le> i \<and> i < int (length sizes) then sizes ! nat i else ''undefined'')"

text \<open>
  The argument is a byte count, such as the \<^verbatim>\<open>size\<close> of a \<^verbatim>\<open>File\<close>: a natural number.
  The function body is followed statement by statement.
\<close>

definition formatFileSize :: "nat \<Rightarrow> string" where
  "formatFileSize bytes =
     (if bytes = 0 then ''0 Bytes''
      else let k = 1024;
               i = Math_floor (Math_log (real bytes) / Math_log k)
           in Number_toString (real_of_int (Math_round ((real bytes / Math_pow k i) * 100)) / 100)
                @ '' '' @ sizes_at i)"

subsection \<open>validateFile\<close>

text \<open>
  The argument of \<^verbatim>\<open>validateFile\<close> is a browser \<^verbatim>\<open>File\<close>: the function reads its
  fields \<^verbatim>\<open>type\<close> (a MIME-type string) and \<^verbatim>\<open>size\<close> (a byte count). The result is
  one of the object literals \<^verbatim>\<open>{ valid: false, message: ... }\<close> and \<^verbatim>\<open>{ valid: true }\<close>;
  the second has no \<^verbatim>\<open>message\<close> property.
\<close>

record file_descriptor =
  file_type :: string
  file_size :: int

record validation =
  valid :: bool
  message :: "string option"

definition Valid :: validation where
  "Valid = \<lparr>valid = True, message = None\<rparr>"

definition Invalid :: "string \<Rightarrow> validation" where
  "Invalid reason = \<lparr>valid = False, message = Some reason\<rparr>"

definition allowedTypes :: "string list" where
  "allowedTypes =
     [''image/jpeg'', ''image/png'', ''image/jpg'', ''video/mp4'', ''video/avi'',
      ''video/x-msvideo'', ''video/quicktime'', ''video/x-matroska'']"

definition maxSize :: int where
  "maxSize = 500 * 1024 * 1024"

text \<open>\<^verbatim>\<open>Array.prototype.includes\<close> on an array of strings, asked for a string.\<close>

definition Array_includes :: "string list \<Rightarrow> string \<Rightarrow> bool" where
  "Array_includes xs x \<longleftrightarrow> x \<in> set xs"

text \<open>
  A JavaScript object is passed by reference, so a call could write to the caller's
  file object. The model passes the state explicitly: \<open>validateFile\<close> returns its result
  together with the file object as the call leaves it.
\<close>

definition validateFile :: "file_descriptor \<Rightarrow> validation \<times> file_descriptor" where
  "validateFile f =
     (if \<not> Array_includes allowedTypes (file_type f)
      then (Invalid ''Invalid file type. Please upload an image or video.'', f)
      else if file_size f > maxSize
      then (Invalid ''File size exceeds 500MB limit.'', f)
      else (Valid, f))"


subsection \<open>formatDate\<close>

text \<open>
  \<^verbatim>\<open>Date\<close> is an object of the host. \<^verbatim>\<open>new Date(dateString)\<close> parses the string by the
  host's rules into a time value: milliseconds since the epoch, or \<open>NaN\<close> when the string
  is not a date the host recognises. \<^verbatim>\<open>toLocaleString()\<close> gives the host's string for an
  invalid date (\<^verbatim>\<open>"Invalid Date"\<close> in the browsers) for the time value \<open>NaN\<close>, and
  otherwise the date and time in the host's locale and time zone. The parser, the
  locale's format and the string for an invalid date are parameters of the model.
  Neither operation throws: the constructor is given a string, and \<^verbatim>\<open>toLocaleString\<close>
  no argument.
\<close>

datatype time_value = NaN | Time int

record host =
  Date_parse :: "string \<Rightarrow> time_value"
  locale_format :: "int \<Rightarrow> string"
  invalid_date :: string

text \<open>A call completes by returning a value or by throwing.\<close>

datatype 'a completion = Normal 'a | Throw string

definition new_Date :: "host \<Rightarrow> string \<Rightarrow> time_value" where
  "new_Date h dateString = Date_parse h dateString"

definition toLocaleString :: "host \<Rightarrow> time_value \<Rightarrow> string" where
  "toLocaleString h tv = (case tv of NaN \<Rightarrow> invalid_date h | Time t \<Rightarrow> locale_format h t)"

definition formatDate :: "host \<Rightarrow> string \<Rightarrow> string completion" where
  "formatDate h dateString =
     (let date = new_Date h dateString in Normal (toLocaleString h date))"

subsection \<open>showNotification\<close>

text \<open>
  The page, as far as \<^verbatim>\<open>showNotification\<close> touches it: the children of the element that
  \<^verbatim>\<open>$('main .container')\<close> selects (first child first), the pending timers with the time
  they are due, and a clock in milliseconds. Every element has an identity. The message
  is kept as the text it is; the markup it may contain is not parsed.
\<close>

record element =
  el_id :: nat
  el_classes :: "string list"
  el_content :: string
  el_hidden :: bool

text \<open>What \<^verbatim>\<open>this\<close> is bound to: the global object, or an element of the page.\<close>

datatype this_binding = Window | Node nat

record page =
  container :: "element list"
  timers :: "(nat \<times> this_binding) list"
  clock :: nat
  next_id :: nat

text \<open>The \<^verbatim>\<open>div\<close> that the template literal \<^verbatim>\<open>alertHTML\<close> describes.\<close>

definition alertHTML :: "nat \<Rightarrow> string \<Rightarrow> string \<Rightarrow> element" where
  "alertHTML i msg type =
     \<lparr>el_id = i,
      el_classes = [''alert'', ''alert-'' @ type, ''alert-dismissible'', ''fade'', ''show''],
      el_content = msg,
      el_hidden = False\<rparr>"

definition prepend :: "element \<Rightarrow> page \<Rightarrow> page" where
  "prepend e p = p\<lparr>container := e # container p\<rparr>"

text \<open>
  Every timer of this file runs the same arrow function, so a timer is the time it is
  due and the \<^verbatim>\<open>this\<close> the arrow function closes over.
\<close>

definition setTimeout :: "this_binding \<Rightarrow> nat \<Rightarrow> page \<Rightarrow> page" where
  "setTimeout lexical_this delay p = p\<lparr>timers := timers p @ [(clock p + delay, lexical_this)]\<rparr>"

definition showNotification :: "this_binding \<Rightarrow> string \<Rightarrow> string \<Rightarrow> page \<Rightarrow> page" where
  "showNotification lexical_this msg type p =
     (let p1 = prepend (alertHTML (next_id p) msg type) (p\<lparr>next_id := Suc (next_id p)\<rparr>)
      in setTimeout lexical_this 5000 p1)"

text \<open>The elements that the selector \<^verbatim>\<open>.alert\<close> matches.\<close>

definition is_alert :: "element \<Rightarrow> bool" where
  "is_alert e \<longleftrightarrow> ''alert'' \<in> set (el_classes e)"

definition alerts :: "page \<Rightarrow> element list" where
  "alerts p = filter is_alert (container p)"

text \<open>
  \<^verbatim>\<open>$(this).remove()\<close> takes the element \<^verbatim>\<open>this\<close> out of the page; the global object is
  not in the page, and nothing is taken out.
\<close>

definition jq_remove :: "this_binding \<Rightarrow> page \<Rightarrow> page" where
  "jq_remove t p =
     (case t of Window \<Rightarrow> p
      | Node i \<Rightarrow> p\<lparr>container := filter (\<lambda>e. el_id e \<noteq> i) (container p)\<rparr>)"

text \<open>
  \<^verbatim>\<open>$('.alert').fadeOut(complete)\<close> hides every matched element and then calls
  \<^verbatim>\<open>complete\<close> once for each of them, with \<^verbatim>\<open>this\<close> bound to the element. The time the
  animation takes is left out: the fade is over when the timer has run.
\<close>

definition fadeOut :: "(this_binding \<Rightarrow> page \<Rightarrow> page) \<Rightarrow> page \<Rightarrow> page" where
  "fadeOut callback p =
     (let matched = alerts p;
          p1 = p\<lparr>container := map (\<lambda>e. if is_alert e then e\<lparr>el_hidden := True\<rparr> else e) (container p)\<rparr>
      in fold (\<lambda>e. callback (Node (el_id e))) matched p1)"

text \<open>
  The function given to \<^verbatim>\<open>setTimeout\<close>. The callback it hands to \<^verbatim>\<open>fadeOut\<close> is an arrow
  function: its \<^verbatim>\<open>this\<close> is the one of the enclosing \<^verbatim>\<open>showNotification\<close> call, not the
  one \<^verbatim>\<open>fadeOut\<close> binds.
\<close>

definition dismiss :: "this_binding \<Rightarrow> page \<Rightarrow> page" where
  "dismiss lexical_this p = fadeOut (\<lambda>bound_this. jq_remove lexical_this) p"

text \<open>Time passes: the timers that are due run in the order they were set.\<close>

definition advance :: "nat \<Rightarrow> page \<Rightarrow> page" where
  "advance ms p =
     (let now = clock p + ms;
          due = filter (\<lambda>(t, _). t \<le> now) (timers p);
          p1 = p\<lparr>clock := now, timers := filter (\<lambda>(t, _). \<not> t \<le> now) (timers p)\<rparr>
      in fold (\<lambda>(_, lexical_this). dismiss lexical_this) due p1)"

subsection \<open>Calls in a browser\<close>









section \<open>Reading the formatted size back\<close>

text \<open>
  What the specification says of the output of \<^verbatim>\<open>formatFileSize\<close>, in its own terms: the
  unit index \<open>floor (log_1024 bytes)\<close>, rounding half away from zero, a numeral of at
  most two decimal digits, and the number a numeral stands for.
\<close>

definition unit_index_spec :: "nat \<Rightarrow> int" where
  "unit_index_spec bytes = \<lfloor>log 1024 (real bytes)\<rfloor>"

definition round_half_away_from_zero :: "real \<Rightarrow> int" where
  "round_half_away_from_zero x = (if x < 0 then - \<lfloor>- x + 1 / 2\<rfloor> else \<lfloor>x + 1 / 2\<rfloor>)"

text \<open>The numeral of \<open>n / 100\<close> with no trailing zero after the point, for \<open>n \<ge> 0\<close>.\<close>

definition hundredths :: "int \<Rightarrow> string" where
  "hundredths n =
     decimal (nat (n div 100)) @
     (if n mod 100 = 0 then []
      else if n mod 10 = 0 then [CHR ''.'', digit (nat (n mod 100 div 10))]
      else [CHR ''.'', digit (nat (n mod 100 div 10)), digit (nat (n mod 10))])"

definition is_digit :: "char \<Rightarrow> bool" where
  "is_digit c \<longleftrightarrow> (48::nat) \<le> of_char c \<and> (of_char c :: nat) \<le> 57"

definition digit_value :: "char \<Rightarrow> nat" where
  "digit_value c = of_char c - 48"

definition digits_value :: "string \<Rightarrow> nat" where
  "digits_value s = foldl (\<lambda>a c. 10 * a + digit_value c) 0 s"

definition read_decimal :: "string \<Rightarrow> nat option" where
  "read_decimal s = (if s \<noteq> [] \<and> list_all is_digit s then Some (digits_value s) else None)"

definition integer_part :: "string \<Rightarrow> string" where
  "integer_part s = takeWhile (\<lambda>c. c \<noteq> CHR ''.'') s"

definition fraction_part :: "string \<Rightarrow> string" where
  "fraction_part s = drop 1 (dropWhile (\<lambda>c. c \<noteq> CHR ''.'') s)"

definition numeral_value :: "string \<Rightarrow> real" where
  "numeral_value s =
     real (digits_value (integer_part s)) +
     real (digits_value (fraction_part s)) / 10 ^ length (fraction_part s)"

section \<open>A page and a host to run the helpers on\<close>

definition empty_page :: page where
  "empty_page = \<lparr>container = [], timers = [], clock = 0, next_id = 0\<rparr>"

text \<open>A host that recognises one date string and no other.\<close>

definition example_host :: host where
  "example_host =
     \<lparr>Date_parse = (\<lambda>s. if s = ''2024-01-01T00:00:00Z'' then Time 1704067200000 else NaN),
      locale_format = (\<lambda>t. ''1/1/2024, 12:00:00 AM''),
      invalid_date = ''Invalid Date''\<rparr>"



section \<open>Properties of validateFile\<close>

lemma includes_allowedTypes:
  "Array_includes allowedTypes t \<longleftrightarrow>
     t \<in> {''image/jpeg'', ''image/png'', ''image/jpg'', ''video/mp4'', ''video/avi'',
          ''video/x-msvideo'', ''video/quicktime'', ''video/x-matroska''}"
  by (simp add: Array_includes_def allowedTypes_def)

text \<open>
  C1. For every file descriptor, \<open>validateFile\<close> reports the file-type error when the
  type is not one of the eight allowed MIME types, whatever the size is; otherwise it
  reports the size error when the size exceeds 500 * 1024 * 1024 = 524288000 bytes;
  otherwise it reports a valid file. In particular a file of a wrong type that is also
  too large gets the type error.
\<close>

theorem validateFile_type_then_size:
  "(\<not> Array_includes allowedTypes (file_type f) \<longrightarrow>
      fst (validateFile f) = Invalid ''Invalid file type. Please upload an image or video.'') \<and>
   (Array_includes allowedTypes (file_type f) \<and> file_size f > 524288000 \<longrightarrow>
      fst (validateFile f) = Invalid ''File size exceeds 500MB limit.'') \<and>
   (Array_includes allowedTypes (file_type f) \<and> file_size f \<le> 524288000 \<longrightarrow>
      fst (validateFile f) = Valid) \<and>
   (\<forall>t. Array_includes allowedTypes t \<longleftrightarrow>
      t \<in> {''image/jpeg'', ''image/png'', ''image/jpg'', ''video/mp4'', ''video/avi'',
           ''video/x-msvideo'', ''video/quicktime'', ''video/x-matroska''})"
  by (simp add: validateFile_def maxSize_def includes_allowedTypes)

theorem validateFile_type_then_size_witness:
  "\<not> Array_includes allowedTypes ''text/plain'' \<and>
   fst (validateFile \<lparr>file_type = ''text/plain'', file_size = 600 * 1024 * 1024\<rparr>) =
     Invalid ''Invalid file type. Please upload an image or video.'' \<and>
   Array_includes allowedTypes ''image/png'' \<and>
   fst (validateFile \<lparr>file_type = ''image/png'', file_size = 600 * 1024 * 1024\<rparr>) =
     Invalid ''File size exceeds 500MB limit.'' \<and>
   fst (validateFile \<lparr>file_type = ''image/png'', file_size = 1000\<rparr>) = Valid"
  using validateFile_type_then_size
          [of "\<lparr>file_type = ''text/plain'', file_size = 600 * 1024 * 1024\<rparr>"]
        validateFile_type_then_size
          [of "\<lparr>file_type = ''image/png'', file_size = 600 * 1024 * 1024\<rparr>"]
        validateFile_type_then_size
          [of "\<lparr>file_type = ''image/png'', file_size = 1000\<rparr>"]
  by simp

text \<open>
  C10. A file of an allowed type whose size is exactly 500 * 1024 * 1024 bytes is
  valid: the comparison with the ceiling is strict.
\<close>

theorem validateFile_boundary_accepted:
  "Array_includes allowedTypes (file_type f) \<Longrightarrow> file_size f = 500 * 1024 * 1024 \<Longrightarrow>
     fst (validateFile f) = Valid"
  by (simp add: validateFile_def maxSize_def)

theorem validateFile_boundary_accepted_witness:
  "Array_includes allowedTypes ''video/mp4'' \<and>
   fst (validateFile \<lparr>file_type = ''video/mp4'', file_size = 500 * 1024 * 1024\<rparr>) = Valid"
proof -
  have t: "Array_includes allowedTypes (file_type \<lparr>file_type = ''video/mp4'', file_size = 500 * 1024 * 1024\<rparr>)"
    by (simp add: includes_allowedTypes)
  have "fst (validateFile \<lparr>file_type = ''video/mp4'', file_size = 500 * 1024 * 1024\<rparr>) = Valid"
    by (rule validateFile_boundary_accepted [OF t]) simp
  with t show ?thesis by simp
qed

text \<open>
  C8. \<open>validateFile\<close> leaves the file object it was given as it was, on each of its
  three return paths.
\<close>

theorem validateFile_leaves_file:
  "snd (validateFile f) = f \<and>
   file_type (snd (validateFile f)) = file_type f \<and>
   file_size (snd (validateFile f)) = file_size f"
  by (simp add: validateFile_def)

section \<open>Properties of formatFileSize\<close>

subsection \<open>Digits\<close>

lemma digit_roundtrip:
  assumes "d < 10"
  shows "is_digit (digit d) \<and> digit_value (digit d) = d"
proof -
  from assms have "d = 0 \<or> d = 1 \<or> d = 2 \<or> d = 3 \<or> d = 4 \<or> d = 5 \<or> d = 6 \<or> d = 7 \<or> d = 8 \<or> d = 9"
    by arith
  then show ?thesis
    by (elim disjE) (simp_all add: digit_def is_digit_def digit_value_def)
qed

lemma decimal_digits:
  "decimal n \<noteq> [] \<and> list_all is_digit (decimal n) \<and> digits_value (decimal n) = n"
proof (induction n rule: decimal.induct)
  case (1 n)
  show ?case
  proof (cases "n < 10")
    case True
    then show ?thesis using digit_roundtrip [of n]
      by (simp add: decimal.simps [of n] digits_value_def)
  next
    case False
    with 1 digit_roundtrip [of "n mod 10"] show ?thesis
      by (simp add: decimal.simps [of n] digits_value_def)
  qed
qed

lemma read_decimal_decimal: "read_decimal (decimal n) = Some n"
  using decimal_digits [of n] by (simp add: read_decimal_def)

lemma decimal_no_point: "c \<in> set (decimal n) \<Longrightarrow> c \<noteq> CHR ''.''"
proof
  assume "c \<in> set (decimal n)" and "c = CHR ''.''"
  with decimal_digits [of n] have "is_digit (CHR ''.'')"
    by (simp add: list_all_iff)
  then show False by (simp add: is_digit_def)
qed

lemma integer_part_decimal:
  "integer_part (decimal n) = decimal n"
  "integer_part (decimal n @ CHR ''.'' # ds) = decimal n"
proof -
  show "integer_part (decimal n) = decimal n"
    unfolding integer_part_def by (rule takeWhile_eq_all_conv [THEN iffD2]) (simp add: decimal_no_point)
  have "takeWhile (\<lambda>c. c \<noteq> CHR ''.'') (decimal n @ CHR ''.'' # ds) =
        decimal n @ takeWhile (\<lambda>c. c \<noteq> CHR ''.'') (CHR ''.'' # ds)"
    by (rule takeWhile_append2) (rule decimal_no_point)
  then show "integer_part (decimal n @ CHR ''.'' # ds) = decimal n"
    by (simp add: integer_part_def)
qed

lemma fraction_part_decimal:
  "fraction_part (decimal n) = []"
  "fraction_part (decimal n @ CHR ''.'' # ds) = ds"
proof -
  have e: "dropWhile (\<lambda>c. c \<noteq> CHR ''.'') (decimal n) = []"
    using decimal_no_point [of _ n] by (simp add: dropWhile_eq_Nil_conv)
  show "fraction_part (decimal n) = []"
    unfolding fraction_part_def e by simp
  have "dropWhile (\<lambda>c. c \<noteq> CHR ''.'') (decimal n @ CHR ''.'' # ds) =
        dropWhile (\<lambda>c. c \<noteq> CHR ''.'') (CHR ''.'' # ds)"
    by (rule dropWhile_append2) (rule decimal_no_point)
  then show "fraction_part (decimal n @ CHR ''.'' # ds) = ds"
    by (simp add: fraction_part_def)
qed

subsection \<open>Numbers with at most two decimal digits\<close>

lemma frac_of_int_div:
  assumes "0 < l"
  shows "frac (real_of_int n / real_of_int l) = real_of_int (n mod l) / real_of_int l"
proof -
  have "real_of_int n = real_of_int l * real_of_int (n div l) + real_of_int (n mod l)"
    by (simp only: of_int_mult [symmetric] of_int_add [symmetric] mult_div_mod_eq)
  then have "real_of_int n / real_of_int l - real_of_int (n div l) =
        real_of_int (n mod l) / real_of_int l"
    using assms by (simp add: field_simps)
  then show ?thesis by (simp add: frac_def floor_divide_of_int_eq)
qed

lemma fraction_digits_tenths:
  assumes "0 < d" "d < 10"
  shows "fraction_digits (Suc k) (real_of_int d / 10) = [digit (nat d)]"
proof -
  have "frac (real_of_int d) = 0" by simp
  then show ?thesis using assms by (cases k) simp_all
qed

lemma fraction_digits_hundredths:
  assumes "0 < m" "m < 100"
  shows "fraction_digits (Suc (Suc (Suc k))) (real_of_int m / 100) =
           (if m mod 10 = 0 then [digit (nat (m div 10))]
            else [digit (nat (m div 10)), digit (nat (m mod 10))])"
proof -
  have fl: "\<lfloor>real_of_int m / 10\<rfloor> = m div 10"
    using floor_divide_of_int_eq [of m 10, where ?'a = real] by simp
  have fr: "frac (real_of_int m / 10) = real_of_int (m mod 10) / 10"
    using frac_of_int_div [of 10 m] by simp
  have nz: "real_of_int m / 100 \<noteq> 0" using assms by simp
  show ?thesis
  proof (cases "m mod 10 = 0")
    case True
    then show ?thesis using nz by (simp add: fl fr)
  next
    case False
    then have "0 < m mod 10" "m mod 10 < 10"
      by (smt (verit) pos_mod_sign, simp)
    from fraction_digits_tenths [OF this, of "Suc k"] False nz show ?thesis
      by (simp add: fl fr)
  qed
qed

lemma Number_toString_hundredths:
  assumes "0 \<le> n"
  shows "Number_toString (real_of_int n / 100) = hundredths n"
proof -
  have fl: "\<lfloor>real_of_int n / 100\<rfloor> = n div 100"
    using floor_divide_of_int_eq [of n 100, where ?'a = real] by simp
  have fr: "frac (real_of_int n / 100) = real_of_int (n mod 100) / 100"
    using frac_of_int_div [of 100 n] by simp
  have ab: "\<bar>real_of_int n / 100\<bar> = real_of_int n / 100" using assms by simp
  have nn: "\<not> real_of_int n / 100 < 0" using assms by simp
  show ?thesis
  proof (cases "n mod 100 = 0")
    case True
    then show ?thesis unfolding Number_toString_def ab hundredths_def using nn
      by (simp add: fl fr)
  next
    case False
    then have m: "0 < n mod 100" "n mod 100 < 100"
      by (smt (verit) pos_mod_sign, simp)
    have tw: "(20::nat) = Suc (Suc (Suc 17))" by simp
    have md: "n mod 100 mod 10 = n mod 10"
      by (simp add: mod_mod_cancel)
    show ?thesis unfolding Number_toString_def ab hundredths_def fr tw
        fraction_digits_hundredths [OF m] using nn False
      by (simp add: fl md)
  qed
qed

lemma hundredths_whole: "hundredths (100 * int b) = decimal b"
  by (simp add: hundredths_def)

lemma hundredths_value:
  assumes "0 \<le> n"
  shows "numeral_value (hundredths n) = real_of_int n / 100"
    and "length (fraction_part (hundredths n)) \<le> 2"
proof -
  define q where "q = nat (n div 100)"
  define d1 where "d1 = nat (n mod 100 div 10)"
  define d2 where "d2 = nat (n mod 10)"
  have iq: "int q = n div 100"
    using assms by (simp add: q_def pos_imp_zdiv_nonneg_iff)
  have i1: "int d1 = n mod 100 div 10"
    by (simp add: d1_def pos_imp_zdiv_nonneg_iff)
  have i2: "int d2 = n mod 10"
    by (simp add: d2_def)
  have d: "d1 < 10" "d2 < 10"
    using i1 i2 by simp_all
  have e1: "n = 100 * (n div 100) + n mod 100"
    by simp
  have "n mod 100 mod 10 = n mod 10"
    by (simp add: mod_mod_cancel)
  then have e2: "n mod 100 = 10 * (n mod 100 div 10) + n mod 10"
    using mult_div_mod_eq [of 10 "n mod 100"] by simp
  have n: "n = 100 * int q + 10 * int d1 + int d2"
    unfolding iq i1 i2 using e1 e2 by linarith
  have "n mod 100 = 0 \<longleftrightarrow> int d1 = 0 \<and> int d2 = 0"
    unfolding i1 i2 using e2 by auto
  moreover have "n mod 10 = 0 \<longleftrightarrow> int d2 = 0"
    unfolding i2 by simp
  ultimately have m: "n mod 100 = 0 \<longleftrightarrow> d1 = 0 \<and> d2 = 0" "n mod 10 = 0 \<longleftrightarrow> d2 = 0"
    by simp_all
  have v0: "digits_value [] = 0"
    by (simp add: digits_value_def)
  have v1: "digits_value [digit d1] = d1"
    using digit_roundtrip [OF d(1)] by (simp add: digits_value_def)
  have v2: "digits_value [digit d1, digit d2] = 10 * d1 + d2"
    using digit_roundtrip [OF d(1)] digit_roundtrip [OF d(2)] by (simp add: digits_value_def)
  have h: "hundredths n =
      decimal q @ (if d1 = 0 \<and> d2 = 0 then [] else if d2 = 0 then [CHR ''.'', digit d1]
                   else [CHR ''.'', digit d1, digit d2])"
    unfolding hundredths_def m q_def d1_def d2_def by simp
  have rn: "real_of_int n = 100 * real q + 10 * real d1 + real d2"
    by (subst n) simp
  show "numeral_value (hundredths n) = real_of_int n / 100"
    unfolding h rn numeral_value_def
    using decimal_digits [of q]
    by (simp add: integer_part_decimal fraction_part_decimal v0 v1 v2)
  show "length (fraction_part (hundredths n)) \<le> 2"
    unfolding h by (simp add: fraction_part_decimal)
qed

subsection \<open>The unit and the rounded value\<close>

lemma unit_index:
  fixes b i :: nat
  assumes "1024 ^ i \<le> b" "b < 1024 ^ (i + 1)"
  shows "\<lfloor>log 1024 (real b)\<rfloor> = int i"
proof -
  have "\<lfloor>log (real (1024::nat)) (real b)\<rfloor> = int i"
    by (rule floor_log_nat_eq_if) (use assms in simp_all)
  then show ?thesis by simp
qed

lemma round_scaled:
  fixes b i :: nat
  shows "\<lfloor>real b / 1024 ^ i * 100 + 1 / 2\<rfloor> = (200 * int b + 1024 ^ i) div (2 * 1024 ^ i)"
proof -
  have "real b / 1024 ^ i * 100 + 1 / 2 =
        real_of_int (200 * int b + 1024 ^ i) / real_of_int (2 * 1024 ^ i)"
    by (simp add: field_simps)
  then show ?thesis
    by (simp only: floor_divide_of_int_eq)
qed

lemma formatFileSize_unit:
  fixes b i :: nat
  assumes "1024 ^ i \<le> b" "b < 1024 ^ (i + 1)"
  shows "formatFileSize b =
           hundredths ((200 * int b + 1024 ^ i) div (2 * 1024 ^ i)) @ '' '' @ sizes_at (int i)"
proof -
  have pos: "b \<noteq> 0" using assms(1) by (cases "b = 0") simp_all
  have nn: "0 \<le> (200 * int b + 1024 ^ i) div (2 * 1024 ^ i)"
    by (rule pos_imp_zdiv_nonneg_iff [THEN iffD2]) simp_all
  have ix: "Math_floor (Math_log (real b) / Math_log 1024) = int i"
    using unit_index [OF assms] by (simp add: Math_floor_def Math_log_def log_def)
  have pw: "Math_pow 1024 (int i) = 1024 ^ i"
    by (simp add: Math_pow_def)
  have rd: "Math_round (real b / 1024 ^ i * 100) = (200 * int b + 1024 ^ i) div (2 * 1024 ^ i)"
    unfolding Math_round_def by (rule round_scaled)
  show ?thesis
    unfolding formatFileSize_def Let_def ix pw rd Number_toString_hundredths [OF nn]
    using pos by simp
qed

lemma formatFileSize_below_1024:
  assumes "b < 1024"
  shows "formatFileSize b = decimal b @ '' Bytes''"
proof (cases "b = 0")
  case True
  then show ?thesis by (simp add: formatFileSize_def decimal.simps digit_def)
next
  case False
  have r: "(200 * int b + 1024 ^ 0) div (2 * 1024 ^ 0) = 100 * int b" by simp
  from False assms formatFileSize_unit [of 0 b] show ?thesis
    unfolding r hundredths_whole by (simp add: sizes_at_def sizes_def)
qed

lemma unit_exists:
  fixes b :: nat
  assumes "0 < b" "b < 1024 ^ 4"
  shows "\<exists>i<4. 1024 ^ i \<le> b \<and> b < 1024 ^ (i + 1)"
proof -
  consider "b < 1024" | "1024 \<le> b" "b < 1024 ^ 2" | "1024 ^ 2 \<le> b" "b < 1024 ^ 3"
    | "1024 ^ 3 \<le> b" by linarith
  then show ?thesis
  proof cases
    case 1
    with assms have "1024 ^ 0 \<le> b \<and> b < 1024 ^ (0 + 1)" by simp
    then show ?thesis by (intro exI [of _ 0]) simp
  next
    case 2
    then have "1024 ^ 1 \<le> b \<and> b < 1024 ^ (1 + 1)" by simp
    then show ?thesis by (intro exI [of _ 1]) simp
  next
    case 3
    then have "1024 ^ 2 \<le> b \<and> b < 1024 ^ (2 + 1)" by simp
    then show ?thesis by (intro exI [of _ 2]) simp
  next
    case 4
    with assms have "1024 ^ 3 \<le> b \<and> b < 1024 ^ (3 + 1)" by simp
    then show ?thesis by (intro exI [of _ 3]) simp
  qed
qed

text \<open>
  C2. \<open>formatFileSize 0\<close> is the string \<open>0 Bytes\<close>: the first statement of the function
  returns it, before any logarithm is taken.
\<close>

theorem formatFileSize_zero: "formatFileSize 0 = ''0 Bytes''"
  by (simp add: formatFileSize_def)

text \<open>
  C3. \<open>formatFileSize 1024\<close> is \<open>1 KB\<close>, \<open>formatFileSize 1536\<close> is \<open>1.5 KB\<close> and
  \<open>formatFileSize 1048576\<close> is \<open>1 MB\<close>.
\<close>

theorem formatFileSize_examples:
  "formatFileSize 1024 = ''1 KB'' \<and>
   formatFileSize 1536 = ''1.5 KB'' \<and>
   formatFileSize 1048576 = ''1 MB''"
proof -
  have "formatFileSize 1024 = ''1 KB''"
    using formatFileSize_unit [of 1 1024]
    by (simp add: hundredths_def decimal.simps sizes_at_def sizes_def digit_def)
  moreover have "formatFileSize 1536 = ''1.5 KB''"
    using formatFileSize_unit [of 1 1536]
    by (simp add: hundredths_def decimal.simps sizes_at_def sizes_def digit_def)
  moreover have "formatFileSize 1048576 = ''1 MB''"
    using formatFileSize_unit [of 2 1048576]
    by (simp add: hundredths_def decimal.simps sizes_at_def sizes_def digit_def)
  ultimately show ?thesis by simp
qed

text \<open>
  C4. For every byte count \<open>b < 1024\<close>, \<open>formatFileSize b\<close> ends in \<open> Bytes\<close>, and what
  stands before it is the decimal numeral of \<open>b\<close>: read as a number, it is \<open>b\<close>.
\<close>

theorem formatFileSize_Bytes:
  assumes "b < 1024"
  shows "suffix '' Bytes'' (formatFileSize b) \<and>
         formatFileSize b = decimal b @ '' Bytes'' \<and>
         read_decimal (decimal b) = Some b"
  using formatFileSize_below_1024 [OF assms] read_decimal_decimal [of b]
  by (simp add: suffix_def)

theorem formatFileSize_Bytes_witness:
  "(1023::nat) < 1024 \<and> formatFileSize 1023 = ''1023 Bytes'' \<and>
   read_decimal ''1023'' = Some 1023"
proof -
  have d: "decimal 1023 = ''1023''"
    by (simp add: decimal.simps digit_def)
  from formatFileSize_Bytes [of 1023] show ?thesis
    unfolding d by simp
qed

text \<open>
  C5. For every byte count \<open>0 < bytes < 1024 ^ 4\<close> the unit is entry
  \<open>i = floor (log_1024 bytes)\<close> of the table Bytes, KB, MB, GB, with \<open>i < 4\<close>, and the
  number before it is \<open>bytes / 1024 ^ i\<close> rounded half away from zero to hundredths: a
  numeral with at most two digits after the point whose value is the rounded number.
\<close>

theorem formatFileSize_unit_and_rounding:
  fixes bytes :: nat
  assumes "0 < bytes" "bytes < 1024 ^ 4"
  shows "\<exists>i<4. unit_index_spec bytes = int i \<and>
           (let r = round_half_away_from_zero (real bytes / 1024 ^ i * 100) in
              formatFileSize bytes = hundredths r @ '' '' @ [''Bytes'', ''KB'', ''MB'', ''GB''] ! i \<and>
              numeral_value (hundredths r) = real_of_int r / 100 \<and>
              length (fraction_part (hundredths r)) \<le> 2)"
proof -
  from unit_exists [OF assms] obtain i
    where i: "i < 4" "1024 ^ i \<le> bytes" "bytes < 1024 ^ (i + 1)" by blast
  define r where "r = round_half_away_from_zero (real bytes / 1024 ^ i * 100)"
  have "\<not> real bytes / 1024 ^ i * 100 < 0"
    by (simp add: not_less)
  then have r: "r = (200 * int bytes + 1024 ^ i) div (2 * 1024 ^ i)"
    unfolding r_def round_half_away_from_zero_def by (simp only: if_False round_scaled)
  have nn: "0 \<le> r"
    unfolding r by (rule pos_imp_zdiv_nonneg_iff [THEN iffD2]) simp_all
  have u: "sizes_at (int i) = [''Bytes'', ''KB'', ''MB'', ''GB''] ! i"
    using i(1) by (simp add: sizes_at_def sizes_def)
  have "unit_index_spec bytes = int i"
    unfolding unit_index_spec_def by (rule unit_index [OF i(2,3)])
  moreover have "formatFileSize bytes = hundredths r @ '' '' @ [''Bytes'', ''KB'', ''MB'', ''GB''] ! i"
    unfolding r u [symmetric] by (rule formatFileSize_unit [OF i(2,3)])
  ultimately show ?thesis
    using i(1) hundredths_value [OF nn] unfolding r_def Let_def by blast
qed


text \<open>The value \<open>1.125\<close> lies halfway between two hundredths and goes up.\<close>

theorem formatFileSize_unit_and_rounding_witness:
  "(0::nat) < 1152 \<and> (1152::nat) < 1024 ^ 4 \<and> unit_index_spec 1152 = 1 \<and>
   round_half_away_from_zero (real 1152 / 1024 ^ 1 * 100) = 113 \<and>
   formatFileSize 1152 = ''1.13 KB''"
proof -
  have u: "unit_index_spec 1152 = 1"
    unfolding unit_index_spec_def using unit_index [of 1 1152] by simp
  have r: "round_half_away_from_zero (real 1152 / 1024 ^ 1 * 100) = 113"
    by (simp add: round_half_away_from_zero_def)
  have h: "hundredths 113 = ''1.13''"
    by (simp add: hundredths_def decimal.simps digit_def)
  from formatFileSize_unit_and_rounding [of 1152] obtain i where
    i: "unit_index_spec 1152 = int i"
      "formatFileSize 1152 =
         hundredths (round_half_away_from_zero (real 1152 / 1024 ^ i * 100)) @ '' '' @
         [''Bytes'', ''KB'', ''MB'', ''GB''] ! i"
    unfolding Let_def by auto
  from i(1) u have "i = 1" by simp
  with i(2) have "formatFileSize 1152 = ''1.13 KB''"
    unfolding \<open>i = 1\<close> r h by simp
  with u r show ?thesis by simp
qed

section \<open>Properties of formatDate\<close>

text \<open>
  C9. For every string and every host, \<open>formatDate\<close> returns a string and does not
  throw; for a string the host's parser does not recognise as a date, the string
  returned is the host's string for an invalid date.
\<close>

theorem formatDate_never_fails:
  "(\<exists>str. formatDate h dateString = Normal str) \<and>
   (\<forall>e. formatDate h dateString \<noteq> Throw e) \<and>
   (Date_parse h dateString = NaN \<longrightarrow> formatDate h dateString = Normal (invalid_date h))"
  by (simp add: formatDate_def new_Date_def toLocaleString_def)

theorem formatDate_never_fails_witness:
  "Date_parse example_host ''next tuesday, maybe'' = NaN \<and>
   formatDate example_host ''next tuesday, maybe'' = Normal ''Invalid Date''"
proof -
  have "Date_parse example_host ''next tuesday, maybe'' = NaN"
    by (simp add: example_host_def)
  with formatDate_never_fails [of example_host "''next tuesday, maybe''"] show ?thesis
    by (simp add: example_host_def)
qed

section \<open>Properties of showNotification\<close>

lemma showNotification_prepends:
  "container (showNotification t msg type p) = alertHTML (next_id p) msg type # container p"
  by (simp add: showNotification_def prepend_def setTimeout_def)

lemma jq_remove_Window: "fold (\<lambda>e. jq_remove Window) es p = p"
  by (induction es) (simp_all add: jq_remove_def)

lemma dismiss_Window_keeps_alerts:
  "map el_id (alerts (dismiss Window p)) = map el_id (alerts p)"
proof -
  have "map el_id (filter is_alert (map (\<lambda>e. if is_alert e then e\<lparr>el_hidden := True\<rparr> else e) es)) =
        map el_id (filter is_alert es)" for es
    by (induction es) (simp_all add: is_alert_def)
  then show ?thesis
    by (simp add: dismiss_def fadeOut_def Let_def jq_remove_Window alerts_def)
qed

text \<open>
  C6, at one notification on an empty page. The call puts one banner in front of the
  container's children. When the 5000 ms have passed, the timer has run and is gone,
  and the banner is still among the elements that \<open>.alert\<close> selects: it is hidden, not
  removed.
\<close>

theorem showNotification_banner_stays:
  "container (showNotification Window ''x'' ''info'' empty_page) = [alertHTML 0 ''x'' ''info''] \<and>
   alerts (showNotification Window ''x'' ''info'' empty_page) = [alertHTML 0 ''x'' ''info''] \<and>
   timers (advance 5000 (showNotification Window ''x'' ''info'' empty_page)) = [] \<and>
   alerts (advance 5000 (showNotification Window ''x'' ''info'' empty_page)) =
     [(alertHTML 0 ''x'' ''info'')\<lparr>el_hidden := True\<rparr>] \<and>
   length (alerts (advance 5000 (showNotification Window ''x'' ''info'' empty_page))) = 1"
  by (simp add: showNotification_def prepend_def setTimeout_def empty_page_def advance_def
      dismiss_def fadeOut_def jq_remove_def alerts_def is_alert_def alertHTML_def Let_def)

section \<open>The formatters, the page and the host\<close>









end
